theory Spec2Isabelle
  imports Complex_Main "HOL-Library.Sublist" "HOL-Library.List_Lexorder"
begin

section \<open>Python strings\<close>

text \<open>
  A Python \<open>str\<close> is a sequence of Unicode code points, so a text is a list of
  integers (the code points, which are never negative): \<open>len\<close>, slicing and
  comparison work on code points, and \<open>sorted\<close> on a list of strings is the
  lexicographic order of the code points. ASCII literals are written \<open>u ''...''\<close>;
  the Japanese keywords of the tables are written as their code points.

  \<open>str.upper\<close> and \<open>str.lower\<close> are modelled on the ASCII letters and leave every
  other code point as it is, which is what Python does on digits, punctuation, kana and
  kanji. In the regular expression class \<open>\w\<close> every code point beyond ASCII is taken
  as a word character, as Python does for kana and kanji. The model is exact on texts of
  ASCII, kana and kanji. Beyond them Python also maps a few code points to ASCII
  letters (upper-casing the dotless i and the long s, lower-casing the Kelvin sign and
  the dotted capital I) and excludes punctuation such as the ideographic comma from
  \<open>\w\<close>; the examples below use ASCII texts only.
\<close>

type_synonym ustr = "int list"

definition u :: "string \<Rightarrow> ustr" where
  "u s = map of_char s"

definition upper_cp :: "int \<Rightarrow> int" where
  "upper_cp c = (if 97 \<le> c \<and> c \<le> 122 then c - 32 else c)"

definition lower_cp :: "int \<Rightarrow> int" where
  "lower_cp c = (if 65 \<le> c \<and> c \<le> 90 then c + 32 else c)"

definition str_upper :: "ustr \<Rightarrow> ustr" where
  "str_upper s = map upper_cp s"

definition str_lower :: "ustr \<Rightarrow> ustr" where
  "str_lower s = map lower_cp s"

text \<open>\<open>needle in hay\<close> on strings: the needle occurs as a contiguous run.\<close>

definition contains :: "ustr \<Rightarrow> ustr \<Rightarrow> bool" where
  "contains hay needle = sublist needle hay"

text \<open>
  \<open>hay.count(sub)\<close>: the number of non-overlapping occurrences, scanning from the
  left; the empty string occurs \<open>len(hay) + 1\<close> times.
\<close>

function str_count :: "ustr \<Rightarrow> ustr \<Rightarrow> nat" where
  "str_count hay sub =
     (if sub = [] then length hay + 1
      else if hay = [] then 0
      else if prefix sub hay then 1 + str_count (drop (length sub) hay) sub
      else str_count (tl hay) sub)"
  by pat_completeness auto
termination
  by (relation "measure (\<lambda>(hay, sub). length hay)") auto

declare str_count.simps [simp del]

definition is_word_char :: "int \<Rightarrow> bool" where
  "is_word_char c =
     ((48 \<le> c \<and> c \<le> 57) \<or> (65 \<le> c \<and> c \<le> 90) \<or> (97 \<le> c \<and> c \<le> 122)
      \<or> c = 95 \<or> 128 \<le> c)"

text \<open>
  \<open>re.search(r'\b' + w + r'\b', s)\<close> for a literal \<open>w\<close>: some occurrence of \<open>w\<close> in
  \<open>s\<close> has a word boundary on both sides. A boundary lies between two positions of
  which exactly one holds a word character; the two ends of the text count as
  non-word. The first argument tells whether the character before the current
  position is a word character.
\<close>

definition starts_word :: "ustr \<Rightarrow> bool" where
  "starts_word s = (case s of [] \<Rightarrow> False | c # _ \<Rightarrow> is_word_char c)"

definition word_match_here :: "bool \<Rightarrow> ustr \<Rightarrow> ustr \<Rightarrow> bool" where
  "word_match_here prev w s =
     (prefix w s \<and> prev \<noteq> starts_word s
      \<and> (if w = [] then prev else is_word_char (last w)) \<noteq> starts_word (drop (length w) s))"

fun word_search :: "bool \<Rightarrow> ustr \<Rightarrow> ustr \<Rightarrow> bool" where
  "word_search prev w [] = word_match_here prev w []"
| "word_search prev w (c # s) =
     (word_match_here prev w (c # s) \<or> word_search (is_word_char c) w s)"

section \<open>Entity extraction (nlp/extract.py)\<close>

definition CURRENCIES :: "ustr list" where
  "CURRENCIES =
     [u ''USD'', u ''EUR'', u ''JPY'', u ''GBP'', u ''AUD'', u ''CAD'', u ''CHF'', u ''NZD'',
      u ''CNY'', u ''HKD'', u ''SGD'', u ''SEK'', u ''NOK'', u ''MXN'', u ''ZAR'', u ''TRY'',
      u ''BRL'', u ''RUB'', u ''INR'', u ''KRW'']"

text \<open>The bank written in kanji is \<open>[26085, 37504]\<close> (nichigin, the Bank of Japan).\<close>

definition CENTRAL_BANKS :: "(ustr \<times> ustr list) list" where
  "CENTRAL_BANKS =
     [(u ''FED'', [u ''USD'']), (u ''FRB'', [u ''USD'']), (u ''FOMC'', [u ''USD'']),
      (u ''ECB'', [u ''EUR'']), (u ''BOJ'', [u ''JPY'']), ([26085, 37504], [u ''JPY'']),
      (u ''BOE'', [u ''GBP'']), (u ''RBA'', [u ''AUD'']), (u ''BOC'', [u ''CAD'']),
      (u ''SNB'', [u ''CHF'']), (u ''RBNZ'', [u ''NZD'']), (u ''PBOC'', [u ''CNY''])]"

definition EVENT_CATEGORIES :: "(ustr \<times> ustr list) list" where
  "EVENT_CATEGORIES =
     [(u ''policy_rate'',
        [u ''rate decision'', u ''policy rate'', u ''interest rate'',
         [37329, 21033, 27770, 23450], [25919, 31574, 37329, 21033],
         [21033, 19978, 12370], [21033, 19979, 12370],
         u ''hawkish'', u ''dovish'', u ''tightening'', u ''easing'']),
      (u ''official_comment'',
        [u ''fed chair'', u ''ecb president'', u ''governor'',
         u ''speech'', u ''testimony'', u ''press conference'',
         [35696, 38263], [32207, 35009], [30330, 35328], [20250, 35211]]),
      (u ''inflation'',
        [u ''cpi'', u ''pce'', u ''inflation'', u ''consumer price'',
         [28040, 36027, 32773, 29289, 20385], [12452, 12531, 12501, 12524], [29289, 20385]]),
      (u ''employment'',
        [u ''nfp'', u ''non-farm'', u ''unemployment'', u ''jobless'',
         [38599, 29992, 32113, 35336], [22833, 26989, 29575], [26032, 35215, 38599, 29992]]),
      (u ''gdp'',
        [u ''gdp'', u ''gross domestic'', u ''growth'',
         u ''GDP'', [22269, 20869, 32207, 29983, 29987], [25104, 38263, 29575]]),
      (u ''pmi'',
        [u ''pmi'', u ''purchasing managers'', u ''manufacturing'',
         u ''PMI'', [35069, 36896, 26989], [12469, 12540, 12499, 12473, 26989]]),
      (u ''retail'',
        [u ''retail sales'', u ''consumer spending'',
         [23567, 22770, 22770, 19978], [28040, 36027, 25903, 20986]]),
      (u ''trade'',
        [u ''trade balance'', u ''current account'', u ''exports'',
         [36031, 26131, 21454, 25903], [32076, 24120, 21454, 25903], [36664, 20986]])]"

text \<open>
  \<open>extract_currencies\<close>: a currency code counts when it occurs in the upper-cased
  text as a whole word; every bank whose name occurs anywhere in the upper-cased text
  adds its currencies. The result is \<open>sorted(list(set))\<close>.
\<close>

definition extract_currencies :: "ustr \<Rightarrow> ustr list" where
  "extract_currencies text =
     (if text = [] then []
      else let text_upper = str_upper text;
               direct = filter (\<lambda>currency. contains text_upper currency
                                   \<and> word_search False currency text_upper) CURRENCIES;
               implied = concat (map snd (filter (\<lambda>(bank, bank_currencies).
                                   contains text_upper bank) CENTRAL_BANKS))
           in sort (remdups (direct @ implied)))"

definition extract_central_banks :: "ustr \<Rightarrow> ustr list" where
  "extract_central_banks text =
     (if text = [] then []
      else let text_upper = str_upper text
           in sort (remdups (filter (\<lambda>bank. contains text_upper bank)
                                    (map fst CENTRAL_BANKS))))"

definition keyword_hits :: "ustr \<Rightarrow> ustr list \<Rightarrow> int" where
  "keyword_hits text keywords = int (length (filter (\<lambda>keyword. contains text keyword) keywords))"

text \<open>
  \<open>max(scores, key=scores.get)\<close> over a dictionary in insertion order: the first key
  whose value is maximal.
\<close>

fun max_key :: "(ustr \<times> int) \<Rightarrow> (ustr \<times> int) list \<Rightarrow> ustr" where
  "max_key best [] = fst best"
| "max_key best (kv # kvs) = max_key (if snd kv > snd best then kv else best) kvs"

definition categorize_event :: "ustr \<Rightarrow> ustr" where
  "categorize_event text =
     (if text = [] then u ''other''
      else let text_lower = str_lower text;
               scores = filter (\<lambda>(category, score). score > 0)
                          (map (\<lambda>(category, keywords). (category, keyword_hits text_lower keywords))
                               EVENT_CATEGORIES)
           in (case scores of [] \<Rightarrow> u ''other'' | kv # kvs \<Rightarrow> max_key kv kvs))"

definition major_bases :: "ustr list" where
  "major_bases = [u ''EUR'', u ''GBP'', u ''AUD'', u ''NZD'', u ''USD'', u ''CAD'', u ''CHF'']"

definition jpy_cross_bases :: "ustr list" where
  "jpy_cross_bases = [u ''EUR'', u ''GBP'', u ''AUD'', u ''NZD'', u ''CAD'', u ''CHF'']"

text \<open>The pairs appended to \<open>pairs\<close> in one iteration of the loop over the currencies.\<close>

definition pairs_of_currency :: "ustr list \<Rightarrow> ustr \<Rightarrow> ustr list" where
  "pairs_of_currency currencies currency =
     (if currency = u ''USD''
      then map (\<lambda>base. base @ u ''USD'')
               (filter (\<lambda>base. base \<noteq> u ''USD'' \<and> base \<in> set currencies) major_bases)
      else if currency \<in> set major_bases then [u ''USD'' @ currency]
      else [])
     @ (if currency = u ''JPY''
        then map (\<lambda>base. base @ u ''JPY'') (filter (\<lambda>base. base \<in> set currencies) jpy_cross_bases)
        else [])"

definition extract_currency_pairs :: "ustr list \<Rightarrow> ustr list" where
  "extract_currency_pairs currencies =
     (if currencies = [] then []
      else sort (remdups (concat (map (pairs_of_currency currencies) currencies))))"

section \<open>Impact scoring (nlp/score.py)\<close>

definition CATEGORY_WEIGHTS :: "(ustr \<times> int) list" where
  "CATEGORY_WEIGHTS =
     [(u ''policy_rate'', 90), (u ''official_comment'', 70), (u ''inflation'', 65),
      (u ''employment'', 60), (u ''gdp'', 55), (u ''pmi'', 45), (u ''retail'', 40),
      (u ''trade'', 35), (u ''other'', 20)]"

definition HIGH_IMPACT_KEYWORDS :: "ustr list" where
  "HIGH_IMPACT_KEYWORDS =
     [u ''surprise'', u ''unexpected'', u ''shock'', u ''emergency'',
      u ''crisis'', u ''crash'', u ''surge'', u ''plunge'', u ''soar'',
      u ''record'', u ''historic'', u ''unprecedented'',
      [12469, 12503, 12521, 12452, 12474], [20104, 24819, 22806], [24613, 39472],
      [24613, 33853], [36942, 21435, 26368],
      u ''breaking'', u ''alert'', u ''urgent'']"

definition LOW_IMPACT_KEYWORDS :: "ustr list" where
  "LOW_IMPACT_KEYWORDS =
     [u ''expected'', u ''forecast'', u ''predicted'', u ''inline'',
      u ''unchanged'', u ''steady'', u ''stable'', u ''minor'',
      [20104, 24819, 36890, 12426], [22793, 21270, 12394, 12375], [23433, 23450],
      [23567, 24133]]"

definition calculate_impact_score :: "ustr \<Rightarrow> ustr \<Rightarrow> ustr list \<Rightarrow> ustr list \<Rightarrow> int" where
  "calculate_impact_score text category currencies central_banks =
     (let base_score = (case map_of CATEGORY_WEIGHTS category of Some w \<Rightarrow> w | None \<Rightarrow> 20);
          text_lower = str_lower text;
          high_impact_count = keyword_hits text_lower HIGH_IMPACT_KEYWORDS;
          low_impact_count = keyword_hits text_lower LOW_IMPACT_KEYWORDS;
          score = base_score + high_impact_count * 10 - low_impact_count * 5;
          score = (if length currencies \<ge> 3 then score + 10 else score);
          score = (if length central_banks \<ge> 2 then score + 15 else score)
      in max 0 (min 100 score))"

text \<open>
  A Python dictionary is an association list in insertion order with distinct keys:
  assigning to a key that is present overwrites its value in place, assigning to a new
  key appends it, \<open>del\<close> removes the entry.
\<close>

fun dict_set :: "('k \<times> 'v) list \<Rightarrow> 'k \<Rightarrow> 'v \<Rightarrow> ('k \<times> 'v) list" where
  "dict_set [] k v = [(k, v)]"
| "dict_set ((k', v') # d) k v = (if k' = k then (k, v) # d else (k', v') # dict_set d k v)"

definition dict_del :: "('k \<times> 'v) list \<Rightarrow> 'k \<Rightarrow> ('k \<times> 'v) list" where
  "dict_del d k = filter (\<lambda>(k', v'). k' \<noteq> k) d"

definition dict_keys :: "('k \<times> 'v) list \<Rightarrow> 'k list" where
  "dict_keys d = map fst d"

definition dict_values :: "('k \<times> 'v) list \<Rightarrow> 'v list" where
  "dict_values d = map snd d"

text \<open>The banks and their currencies that the loop of \<open>calculate_pair_scores\<close> lists.\<close>

definition PAIR_BANKS :: "(ustr \<times> ustr list) list" where
  "PAIR_BANKS =
     [(u ''FED'', [u ''USD'']), (u ''FRB'', [u ''USD'']), (u ''FOMC'', [u ''USD'']),
      (u ''ECB'', [u ''EUR'']), (u ''BOJ'', [u ''JPY'']), (u ''BOE'', [u ''GBP'']),
      (u ''RBA'', [u ''AUD'']), (u ''BOC'', [u ''CAD'']), (u ''SNB'', [u ''CHF'']),
      (u ''RBNZ'', [u ''NZD''])]"

text \<open>The body of the loop of \<open>calculate_pair_scores\<close>: the score of one pair.\<close>

definition pair_score :: "ustr \<Rightarrow> ustr list \<Rightarrow> ustr \<Rightarrow> int" where
  "pair_score text_upper central_banks pair =
     (let score = (if contains text_upper pair then 50 else 0);
          base = take 3 pair;
          quote = drop 3 pair;
          base_count = int (str_count text_upper base);
          quote_count = int (str_count text_upper quote);
          score = score + min (base_count * 10) 30;
          score = score + min (quote_count * 10) 30;
          score = foldl (\<lambda>score (bank, bank_currencies).
                    if bank \<in> set central_banks
                    then (let score = (if base \<in> set bank_currencies then score + 20 else score)
                          in (if quote \<in> set bank_currencies then score + 20 else score))
                    else score) score PAIR_BANKS
      in max 0 (min 100 score))"

text \<open>The loop of \<open>calculate_pair_scores\<close>, started from the dictionary \<open>d\<close>.\<close>

definition scores_loop :: "(ustr \<Rightarrow> int) \<Rightarrow> (ustr \<times> int) list \<Rightarrow> ustr list \<Rightarrow> (ustr \<times> int) list" where
  "scores_loop g d pairs = foldl (\<lambda>scores pair. dict_set scores pair (g pair)) d pairs"

definition calculate_pair_scores ::
  "ustr \<Rightarrow> ustr list \<Rightarrow> ustr list \<Rightarrow> ustr list \<Rightarrow> (ustr \<times> int) list" where
  "calculate_pair_scores text pairs currencies central_banks =
     (if pairs = [] then []
      else let text_upper = str_upper text
           in scores_loop (pair_score text_upper central_banks) [] pairs)"

section \<open>Duplicate detection (utils/dedup.py)\<close>

text \<open>
  The checker holds two dictionaries keyed by the hash of the URL: the time an entry
  was added and its title. Times are microseconds (the resolution of \<open>datetime\<close>);
  every call that reads \<open>datetime.now()\<close> takes the reading as its argument \<open>now\<close>.
  The MD5 digest of \<open>_get_url_hash\<close> and \<open>rapidfuzz\<close>'s \<open>fuzz.ratio\<close> are library
  functions: the operations take them as the arguments \<open>get_url_hash\<close> and \<open>ratio\<close>.
\<close>

record duplicate_checker =
  ttl_hours :: int
  similarity_threshold :: real
  cache :: "(ustr \<times> int) list"
  title_cache :: "(ustr \<times> ustr) list"

definition new_duplicate_checker :: "int \<Rightarrow> real \<Rightarrow> duplicate_checker" where
  "new_duplicate_checker ttl threshold =
     \<lparr>ttl_hours = ttl, similarity_threshold = threshold, cache = [], title_cache = []\<rparr>"

definition timedelta_hours :: "int \<Rightarrow> int" where
  "timedelta_hours h = h * 3600000000"

text \<open>
  \<open>_clean_cache\<close> makes two passes: the first collects the keys whose entry is older
  than the retention window, the second deletes each of them from both dictionaries.
\<close>

definition expired_keys :: "int \<Rightarrow> duplicate_checker \<Rightarrow> ustr list" where
  "expired_keys now dc =
     map fst (filter (\<lambda>(key, timestamp). now - timestamp > timedelta_hours (ttl_hours dc))
                     (cache dc))"

definition purge_key :: "duplicate_checker \<Rightarrow> ustr \<Rightarrow> duplicate_checker" where
  "purge_key dc key =
     dc\<lparr>cache := dict_del (cache dc) key,
        title_cache := (if key \<in> set (dict_keys (title_cache dc))
                        then dict_del (title_cache dc) key
                        else title_cache dc)\<rparr>"

definition clean_cache :: "int \<Rightarrow> duplicate_checker \<Rightarrow> duplicate_checker" where
  "clean_cache now dc = foldl purge_key dc (expired_keys now dc)"

definition is_duplicate_url ::
  "(ustr \<Rightarrow> ustr) \<Rightarrow> int \<Rightarrow> ustr \<Rightarrow> duplicate_checker \<Rightarrow> bool \<times> duplicate_checker" where
  "is_duplicate_url get_url_hash now url dc =
     (let dc = clean_cache now dc;
          url_hash = get_url_hash url
      in (url_hash \<in> set (dict_keys (cache dc)), dc))"

definition is_similar_title :: "(ustr \<Rightarrow> ustr \<Rightarrow> real) \<Rightarrow> ustr \<Rightarrow> duplicate_checker \<Rightarrow> bool" where
  "is_similar_title ratio title dc =
     (if title = [] then False
      else list_ex (\<lambda>cached_title.
             ratio (str_lower title) (str_lower cached_title) \<ge> similarity_threshold dc)
             (dict_values (title_cache dc)))"

definition add :: "(ustr \<Rightarrow> ustr) \<Rightarrow> int \<Rightarrow> ustr \<Rightarrow> ustr \<Rightarrow> duplicate_checker \<Rightarrow> duplicate_checker" where
  "add get_url_hash now url title dc =
     (let url_hash = get_url_hash url
      in dc\<lparr>cache := dict_set (cache dc) url_hash now,
            title_cache := dict_set (title_cache dc) url_hash title\<rparr>)"

text \<open>
  \<open>is_duplicate_url(url) or is_similar_title(title)\<close>: the URL check always runs and
  purges the expired entries; the title check reads the purged cache.
\<close>

definition is_duplicate ::
  "(ustr \<Rightarrow> ustr) \<Rightarrow> (ustr \<Rightarrow> ustr \<Rightarrow> real) \<Rightarrow> int \<Rightarrow> ustr \<Rightarrow> ustr \<Rightarrow> duplicate_checker
     \<Rightarrow> bool \<times> duplicate_checker" where
  "is_duplicate get_url_hash ratio now url title dc =
     (let (dup, dc) = is_duplicate_url get_url_hash now url dc
      in (dup \<or> is_similar_title ratio title dc, dc))"

section \<open>The value passed as URL\<close>

text \<open>
  \<open>Article.url\<close> is declared as pydantic's \<open>HttpUrl\<close> (collectors/rss.py), and the
  configuration module imports \<open>pydantic_settings\<close>, which needs pydantic 2. There a
  validated URL is an object that is not a \<open>str\<close> and has no method \<open>encode\<close>;
  \<open>str(url)\<close> gives its text. \<open>_get_url_hash\<close> calls \<open>url.encode()\<close>, so it matters
  what is passed as \<open>url\<close>: on a string the operations of the checker are \<open>is_duplicate\<close>
  and \<open>add\<close> above; on a URL object the hash raises \<open>AttributeError\<close>. In
  \<open>is_duplicate\<close> the purge of the expired entries has run by then, in \<open>add\<close> nothing has
  been written yet.
\<close>

datatype error = AttributeError

datatype url_value = Str ustr | UrlObject ustr

definition get_url_hash_of :: "(ustr \<Rightarrow> ustr) \<Rightarrow> url_value \<Rightarrow> error + ustr" where
  "get_url_hash_of get_url_hash v =
     (case v of Str s \<Rightarrow> Inr (get_url_hash s) | UrlObject s \<Rightarrow> Inl AttributeError)"

definition is_duplicate_of ::
  "(ustr \<Rightarrow> ustr) \<Rightarrow> (ustr \<Rightarrow> ustr \<Rightarrow> real) \<Rightarrow> int \<Rightarrow> url_value \<Rightarrow> ustr \<Rightarrow> duplicate_checker
     \<Rightarrow> (error + bool) \<times> duplicate_checker" where
  "is_duplicate_of get_url_hash ratio now v title dc =
     (let dc = clean_cache now dc
      in case get_url_hash_of get_url_hash v of
           Inl e \<Rightarrow> (Inl e, dc)
         | Inr url_hash \<Rightarrow>
             (Inr (url_hash \<in> set (dict_keys (cache dc)) \<or> is_similar_title ratio title dc),
              dc))"

definition add_of ::
  "(ustr \<Rightarrow> ustr) \<Rightarrow> int \<Rightarrow> url_value \<Rightarrow> ustr \<Rightarrow> duplicate_checker
     \<Rightarrow> error + duplicate_checker" where
  "add_of get_url_hash now v title dc =
     (case get_url_hash_of get_url_hash v of
        Inl e \<Rightarrow> Inl e
      | Inr url_hash \<Rightarrow>
          Inr (dc\<lparr>cache := dict_set (cache dc) url_hash now,
                  title_cache := dict_set (title_cache dc) url_hash title\<rparr>))"

section \<open>Filtering rules (filters/rules.py)\<close>

text \<open>
  The field \<open>url\<close> of an article holds the text of its URL object, \<open>str(article.url)\<close>.
\<close>

record article =
  art_id :: ustr
  source :: ustr
  url :: ustr
  ts :: int
  title :: ustr
  body :: ustr
  lang :: ustr

record enriched =
  article :: article
  currencies :: "ustr list"
  central_banks :: "ustr list"
  category :: ustr
  impact_score :: int
  pair_scores :: "(ustr \<times> int) list"

record news_filter =
  pairs_allowlist :: "ustr list"
  impact_threshold_breaking :: int
  impact_threshold_digest :: int
  pair_score_threshold :: int

definition excluded_currencies :: "ustr list" where
  "excluded_currencies =
     [u ''TRY'', u ''ZAR'', u ''BRL'', u ''RUB'', u ''INR'', u ''KRW'', u ''MXN'']"

definition is_breaking_news :: "news_filter \<Rightarrow> enriched \<Rightarrow> bool" where
  "is_breaking_news f e =
     (if impact_score e < impact_threshold_breaking f then False
      else list_ex (\<lambda>(pair, score). pair \<in> set (pairs_allowlist f)
                                      \<and> score \<ge> pair_score_threshold f) (pair_scores e))"

definition is_digest_worthy :: "news_filter \<Rightarrow> enriched \<Rightarrow> bool" where
  "is_digest_worthy f e =
     (if impact_score e < impact_threshold_digest f then False
      else list_ex (\<lambda>pair. pair \<in> set (pairs_allowlist f)) (dict_keys (pair_scores e)))"

definition should_exclude :: "news_filter \<Rightarrow> enriched \<Rightarrow> bool" where
  "should_exclude f e =
     (if currencies e \<noteq> []
         \<and> filter (\<lambda>c. c \<notin> set excluded_currencies) (remdups (currencies e)) = []
      then True
      else impact_score e < 20)"

definition filter_for_breaking :: "news_filter \<Rightarrow> enriched list \<Rightarrow> enriched list" where
  "filter_for_breaking f articles =
     filter (\<lambda>a. \<not> should_exclude f a \<and> is_breaking_news f a) articles"

text \<open>
  \<open>xs[:limit]\<close>: the first \<open>limit\<close> elements, and for a negative \<open>limit\<close> all but the
  last \<open>-limit\<close> elements.
\<close>

definition slice_to :: "int \<Rightarrow> 'a list \<Rightarrow> 'a list" where
  "slice_to limit xs =
     (if limit \<ge> 0 then take (nat limit) xs else take (nat (int (length xs) + limit)) xs)"

text \<open>
  \<open>list.sort(key=..., reverse=True)\<close> is stable: elements with equal keys keep their
  order. It is the stable sort by the negated key.
\<close>

definition sort_by_impact_desc :: "enriched list \<Rightarrow> enriched list" where
  "sort_by_impact_desc xs = sort_key (\<lambda>x. - impact_score x) xs"

definition filter_for_digest :: "news_filter \<Rightarrow> enriched list \<Rightarrow> int \<Rightarrow> enriched list" where
  "filter_for_digest f articles limit =
     (let digest = filter (\<lambda>a. \<not> should_exclude f a \<and> is_digest_worthy f a) articles;
          digest = sort_by_impact_desc digest
      in slice_to limit digest)"

section \<open>Text cleaning (utils/text.py, utils/lang.py)\<close>

text \<open>The white space of \<open>\s\<close> and of \<open>str.strip\<close>.\<close>

definition is_space :: "int \<Rightarrow> bool" where
  "is_space c =
     ((9 \<le> c \<and> c \<le> 13) \<or> (28 \<le> c \<and> c \<le> 32) \<or> c = 133 \<or> c = 160 \<or> c = 5760
      \<or> (8192 \<le> c \<and> c \<le> 8202) \<or> c = 8232 \<or> c = 8233 \<or> c = 8239 \<or> c = 8287
      \<or> c = 12288)"

text \<open>
  \<open>re.sub(r'<[^>]+>', '', text)\<close>: at a \<open><\<close> followed by at least one character other
  than \<open>>\<close> and then a \<open>>\<close>, everything up to that \<open>>\<close> is removed.
\<close>

function strip_tags :: "ustr \<Rightarrow> ustr" where
  "strip_tags [] = []"
| "strip_tags (c # s) =
     (if c = 60 \<and> takeWhile (\<lambda>x. x \<noteq> 62) s \<noteq> [] \<and> dropWhile (\<lambda>x. x \<noteq> 62) s \<noteq> []
      then strip_tags (tl (dropWhile (\<lambda>x. x \<noteq> 62) s))
      else c # strip_tags s)"
  by pat_completeness auto
termination
proof (relation "measure length")
  fix c :: int and s :: ustr
  have "length (dropWhile (\<lambda>x. x \<noteq> 62) s) \<le> length s"
    by (rule length_dropWhile_le)
  then show "(tl (dropWhile (\<lambda>x. x \<noteq> 62) s), c # s) \<in> measure length"
    by simp
qed simp_all

text \<open>\<open>re.sub(P+, r, text)\<close> for a class \<open>P\<close> of characters and a single character \<open>r\<close>.\<close>

function squeeze :: "(int \<Rightarrow> bool) \<Rightarrow> int \<Rightarrow> ustr \<Rightarrow> ustr" where
  "squeeze P r [] = []"
| "squeeze P r (c # s) =
     (if P c then r # squeeze P r (dropWhile P s) else c # squeeze P r s)"
  by pat_completeness auto
termination
  by (relation "measure (\<lambda>(P, r, s). length s)") (auto simp: less_Suc_eq_le length_dropWhile_le)

definition str_strip :: "ustr \<Rightarrow> ustr" where
  "str_strip s = rev (dropWhile is_space (rev (dropWhile is_space s)))"

text \<open>
  \<open>clean_text\<close>; the Unicode normalisation \<open>unicodedata.normalize('NFKC', _)\<close> is the
  argument \<open>nfkc\<close>.
\<close>

definition clean_text :: "(ustr \<Rightarrow> ustr) \<Rightarrow> ustr \<Rightarrow> ustr" where
  "clean_text nfkc text =
     (if text = [] then []
      else let text = strip_tags text;
               text = nfkc text;
               text = squeeze is_space 32 text;
               text = squeeze (\<lambda>c. c = 10) 10 text;
               text = filter (\<lambda>c. c \<notin> {8203, 8204, 8205, 65279}) text
           in str_strip text)"

text \<open>
  \<open>detect_language\<close> returns the language code; \<open>langdetect\<close> stands for the library
  call, \<open>None\<close> when it raises something else than the exception that
  \<open>detect_language\<close> catches.
\<close>

definition detect_language :: "(ustr \<Rightarrow> ustr option) \<Rightarrow> ustr \<Rightarrow> ustr option" where
  "detect_language langdetect text =
     (if text = [] \<or> length text < 20 then Some (u ''unknown'') else langdetect text)"

section \<open>Scheduler jobs (scheduler/jobs.py)\<close>

text \<open>
  The collaborators of the jobs are the fields of an environment: the library
  functions, the collector (\<open>None\<close> when it raises), the summariser with its fallback
  (\<open>_generate_summary_and_guide\<close>, which always returns), and the two delivery calls,
  which return a success flag or raise. A job run takes one reading \<open>now\<close> of the
  clock and uses it wherever the run reads \<open>datetime.now()\<close>.

  The model \<open>Enriched\<close> refers to \<open>Article\<close> by a forward reference that
  filters/rules.py does not resolve. Whether it is resolved when \<open>_enrich_article\<close>
  builds an \<open>Enriched\<close> depends on code that is not among the sources (the package
  file of \<open>filters\<close>), so it is the field \<open>enriched_defined\<close>: when it is false,
  the constructor raises and \<open>_enrich_article\<close> returns \<open>None\<close>.
\<close>

datatype delivery = Returns bool | Raises

record news_message =
  n_title :: ustr
  n_summary :: ustr
  n_action_guide :: ustr
  n_source :: ustr
  n_url :: ustr
  n_currencies :: "ustr list"
  n_confidence :: ustr
  n_original_excerpt :: ustr

record digest_item =
  d_title :: ustr
  d_summary_short :: ustr
  d_currencies_str :: ustr
  d_confidence :: ustr
  d_url :: ustr

record digest_message =
  g_title :: ustr
  g_articles :: "digest_item list"
  g_period :: ustr

record env =
  nfkc :: "ustr \<Rightarrow> ustr"
  langdetect :: "ustr \<Rightarrow> ustr option"
  enriched_defined :: bool
  get_url_hash :: "ustr \<Rightarrow> ustr"
  ratio :: "ustr \<Rightarrow> ustr \<Rightarrow> real"
  collect :: "nat \<Rightarrow> article list option"
  generate_summary_and_guide :: "enriched \<Rightarrow> ustr \<times> ustr"
  send_news :: "news_message \<Rightarrow> delivery"
  send_digest :: "digest_message \<Rightarrow> delivery"

text \<open>
  \<open>_enrich_article\<close>: every exception inside is caught and gives \<open>None\<close>. The language
  detection can raise, and so can the constructor of \<open>Enriched\<close>, which runs last.
\<close>

definition enrich_article :: "env \<Rightarrow> article \<Rightarrow> enriched option" where
  "enrich_article env a =
     (let text = clean_text (nfkc env) (title a @ u '' '' @ body a)
      in case detect_language (langdetect env) text of
           None \<Rightarrow> None
         | Some l \<Rightarrow>
             (let cs = extract_currencies text;
                  banks = extract_central_banks text;
                  cat = categorize_event text;
                  pairs = extract_currency_pairs cs;
                  score = calculate_impact_score text cat cs banks;
                  scores = calculate_pair_scores text pairs cs banks
              in if enriched_defined env
                 then Some \<lparr>article = a\<lparr>lang := l\<rparr>, currencies = cs, central_banks = banks,
                             category = cat, impact_score = score, pair_scores = scores\<rparr>
                 else None))"









section \<open>The whole-word match of the specification\<close>

text \<open>
  The specification's reading of the central bank detection: the alias occurs in the
  text as a whole word, case-insensitively. It is the test that \<open>extract_currencies\<close>
  applies to the currency codes.
\<close>

definition occurs_as_whole_word :: "ustr \<Rightarrow> ustr \<Rightarrow> bool" where
  "occurs_as_whole_word alias text = word_search False (str_upper alias) (str_upper text)"

section \<open>Fixtures of the test suite (tests/test_filters.py)\<close>

definition test_filter :: news_filter where
  "test_filter =
     \<lparr>pairs_allowlist = [u ''USDJPY'', u ''EURUSD'', u ''GBPUSD''],
      impact_threshold_breaking = 60, impact_threshold_digest = 40,
      pair_score_threshold = 50\<rparr>"

definition sample_article :: article where
  "sample_article =
     \<lparr>art_id = u ''test123'', source = u ''Test Source'', url = u ''https://example.com/test'',
      ts = 0, title = u ''Test Article'', body = u ''Test body content'', lang = u ''en''\<rparr>"

text \<open>The articles of \<open>test_filter_for_digest_with_limit\<close>, by impact score.\<close>

definition sample_enriched :: "int \<Rightarrow> enriched" where
  "sample_enriched score =
     \<lparr>article = sample_article, currencies = [u ''USD''], central_banks = [],
      category = u ''inflation'', impact_score = score, pair_scores = [(u ''USDJPY'', 50)]\<rparr>"

text \<open>A similarity ratio for the examples: 100 for equal strings, 0 otherwise.\<close>

definition exact_ratio :: "ustr \<Rightarrow> ustr \<Rightarrow> real" where
  "exact_ratio a b = (if a = b then 100 else 0)"

section \<open>A job environment for the examples\<close>





section \<open>Currency pairs of the scenario\<close>

text \<open>
  C3: for the currencies USD, JPY, EUR the code returns EURJPY, EURUSD and USDEUR,
  without duplicates; USDJPY is not among them, because JPY is not one of the major
  bases and USD only looks for a base among them.
\<close>

theorem extract_currency_pairs_usd_jpy_eur:
  "extract_currency_pairs [u ''USD'', u ''JPY'', u ''EUR'']
     = [u ''EURJPY'', u ''EURUSD'', u ''USDEUR'']
   \<and> u ''USDJPY'' \<notin> set (extract_currency_pairs [u ''USD'', u ''JPY'', u ''EUR''])"
  by code_simp

section \<open>Properties of the dictionaries\<close>

lemma dict_keys_Nil: "dict_keys [] = []"
  by (simp add: dict_keys_def)

lemma dict_keys_Cons: "dict_keys ((k, v) # d) = k # dict_keys d"
  by (simp add: dict_keys_def)

lemma dict_set_keys: "set (dict_keys (dict_set d k v)) = insert k (set (dict_keys d))"
proof (induction d)
  case Nil
  show ?case by (simp add: dict_keys_Nil dict_keys_Cons)
next
  case (Cons p d)
  obtain k' v' where p: "p = (k', v')" by (cases p)
  show ?case
  proof (cases "k' = k")
    case True
    then show ?thesis by (simp add: p dict_keys_Cons)
  next
    case False
    then show ?thesis using Cons.IH by (simp add: p dict_keys_Cons insert_commute)
  qed
qed

lemma dict_set_keys_present:
  "k \<in> set (dict_keys d) \<Longrightarrow> dict_keys (dict_set d k v) = dict_keys d"
proof (induction d)
  case Nil
  then show ?case by (simp add: dict_keys_Nil)
next
  case (Cons p d)
  obtain k' v' where p: "p = (k', v')" by (cases p)
  show ?case
  proof (cases "k' = k")
    case True
    then show ?thesis by (simp add: p dict_keys_Cons)
  next
    case False
    with Cons.prems have "k \<in> set (dict_keys d)" by (simp add: p dict_keys_Cons)
    then show ?thesis using False Cons.IH by (simp add: p dict_keys_Cons)
  qed
qed

lemma dict_set_distinct: "distinct (dict_keys d) \<Longrightarrow> distinct (dict_keys (dict_set d k v))"
proof (induction d)
  case Nil
  then show ?case by (simp add: dict_keys_Nil dict_keys_Cons)
next
  case (Cons p d)
  obtain k' v' where p: "p = (k', v')" by (cases p)
  from Cons.prems have d: "distinct (dict_keys d)" and k': "k' \<notin> set (dict_keys d)"
    by (simp_all add: dict_keys_Cons p)
  show ?case
  proof (cases "k' = k")
    case True
    with Cons.prems show ?thesis by (simp add: dict_keys_Cons p)
  next
    case False
    have "dict_keys (dict_set (p # d) k v) = k' # dict_keys (dict_set d k v)"
      using False by (simp add: p dict_keys_Cons)
    moreover have "k' \<notin> set (dict_keys (dict_set d k v))"
      using False k' by (simp add: dict_set_keys)
    ultimately show ?thesis using Cons.IH [OF d] by simp
  qed
qed

lemma map_of_dict_set: "map_of (dict_set d k v) = (map_of d)(k \<mapsto> v)"
proof (induction d)
  case Nil
  show ?case by simp
next
  case (Cons p d)
  obtain k' v' where p: "p = (k', v')" by (cases p)
  show ?case
  proof (cases "k' = k")
    case True
    then show ?thesis by (auto simp: p fun_eq_iff)
  next
    case False
    then show ?thesis using Cons.IH by (auto simp: p fun_eq_iff)
  qed
qed

section \<open>Pair scores\<close>

lemma scores_loop_Nil: "scores_loop g d [] = d"
  by (simp add: scores_loop_def)

lemma scores_loop_Cons: "scores_loop g d (p # pairs) = scores_loop g (dict_set d p (g p)) pairs"
  by (simp add: scores_loop_def)

lemma scores_loop_keys: "set (dict_keys (scores_loop g d pairs)) = set (dict_keys d) \<union> set pairs"
proof (induction pairs arbitrary: d)
  case Nil
  show ?case by (simp add: scores_loop_Nil)
next
  case (Cons p pairs)
  show ?case by (simp add: scores_loop_Cons Cons.IH dict_set_keys)
qed

lemma scores_loop_distinct: "distinct (dict_keys d) \<Longrightarrow> distinct (dict_keys (scores_loop g d pairs))"
proof (induction pairs arbitrary: d)
  case Nil
  then show ?case by (simp add: scores_loop_Nil)
next
  case (Cons p pairs)
  then show ?case by (simp add: scores_loop_Cons dict_set_distinct)
qed

lemma scores_loop_map_of:
  "map_of (scores_loop g d pairs) p = (if p \<in> set pairs then Some (g p) else map_of d p)"
proof (induction pairs arbitrary: d)
  case Nil
  show ?case by (simp add: scores_loop_Nil)
next
  case (Cons q pairs)
  show ?case by (simp add: scores_loop_Cons Cons.IH map_of_dict_set)
qed

lemma calculate_pair_scores_loop:
  "calculate_pair_scores text pairs cs banks = scores_loop (pair_score (str_upper text) banks) [] pairs"
  by (simp add: calculate_pair_scores_def scores_loop_def)

lemma pair_banks_no_signal:
  "set banks \<inter> set (map fst bs) = {} \<Longrightarrow>
   foldl (\<lambda>score (bank, bank_currencies).
            if bank \<in> set banks
            then (let score = (if b \<in> set bank_currencies then score + 20 else score)
                  in (if q \<in> set bank_currencies then score + 20 else score))
            else score) (s::int) bs = s"
proof (induction bs arbitrary: s)
  case Nil
  show ?case by simp
next
  case (Cons p bs)
  obtain bank bcs where p: "p = (bank, bcs)" by (cases p)
  from Cons.prems have "bank \<notin> set banks" and "set banks \<inter> set (map fst bs) = {}"
    by (auto simp: p)
  then show ?case using Cons.IH by (simp add: p)
qed

lemma pair_score_range: "0 \<le> pair_score tu banks p \<and> pair_score tu banks p \<le> 100"
  by (simp add: pair_score_def Let_def)

lemma pair_score_no_signal:
  assumes "\<not> contains tu p" "str_count tu (take 3 p) = 0" "str_count tu (drop 3 p) = 0"
    "set banks \<inter> set (map fst PAIR_BANKS) = {}"
  shows "pair_score tu banks p = 0"
  using assms by (simp add: pair_score_def Let_def pair_banks_no_signal)

text \<open>
  C10: \<open>calculate_pair_scores\<close> returns a dictionary whose keys are exactly the input
  pairs, each once; every pair has the score of the loop body, which is 0 when the text
  mentions neither the pair nor one of its currencies and no listed bank is present.
  Hence \<open>is_digest_worthy\<close>, which only looks at the keys, holds for an article with
  these pair scores exactly when the impact score reaches the digest threshold and one of
  the pairs is on the allow-list.
\<close>

theorem calculate_pair_scores_keys:
  "set (dict_keys (calculate_pair_scores text pairs cs banks)) = set pairs
   \<and> distinct (dict_keys (calculate_pair_scores text pairs cs banks))
   \<and> (\<forall>p \<in> set pairs.
         map_of (calculate_pair_scores text pairs cs banks) p
           = Some (pair_score (str_upper text) banks p)
         \<and> (\<not> contains (str_upper text) p \<and> str_count (str_upper text) (take 3 p) = 0
              \<and> str_count (str_upper text) (drop 3 p) = 0
              \<and> set banks \<inter> set (map fst PAIR_BANKS) = {}
            \<longrightarrow> map_of (calculate_pair_scores text pairs cs banks) p = Some 0))
   \<and> (pair_scores e = calculate_pair_scores text pairs cs banks \<longrightarrow>
        is_digest_worthy f e
          = (impact_threshold_digest f \<le> impact_score e
             \<and> set pairs \<inter> set (pairs_allowlist f) \<noteq> {}))"
proof -
  let ?r = "calculate_pair_scores text pairs cs banks"
  have keys: "set (dict_keys ?r) = set pairs"
    by (simp add: calculate_pair_scores_loop scores_loop_keys dict_keys_Nil)
  have dist: "distinct (dict_keys ?r)"
    by (simp add: calculate_pair_scores_loop scores_loop_distinct dict_keys_Nil)
  have val: "map_of ?r p = Some (pair_score (str_upper text) banks p)" if "p \<in> set pairs" for p
    using that by (simp add: calculate_pair_scores_loop scores_loop_map_of)
  have dig: "is_digest_worthy f e
          = (impact_threshold_digest f \<le> impact_score e
             \<and> set pairs \<inter> set (pairs_allowlist f) \<noteq> {})" if eq: "pair_scores e = ?r"
  proof -
    have "list_ex (\<lambda>pair. pair \<in> set (pairs_allowlist f)) (dict_keys (pair_scores e))
          = (set pairs \<inter> set (pairs_allowlist f) \<noteq> {})"
      unfolding list_ex_iff eq keys by blast
    then show ?thesis
      by (simp add: is_digest_worthy_def not_less)
  qed
  have zero: "map_of ?r p = Some 0"
    if "p \<in> set pairs" and "\<not> contains (str_upper text) p \<and> str_count (str_upper text) (take 3 p) = 0
              \<and> str_count (str_upper text) (drop 3 p) = 0
              \<and> set banks \<inter> set (map fst PAIR_BANKS) = {}" for p
    using that val [of p] pair_score_no_signal [of "str_upper text" p banks] by simp
  show ?thesis
  proof (intro conjI ballI impI)
    show "set (dict_keys ?r) = set pairs" by (rule keys)
    show "distinct (dict_keys ?r)" by (rule dist)
    show "map_of ?r p = Some (pair_score (str_upper text) banks p)" if "p \<in> set pairs" for p
      using that by (rule val)
    show "map_of ?r p = Some 0"
      if "p \<in> set pairs" and "\<not> contains (str_upper text) p \<and> str_count (str_upper text) (take 3 p) = 0
              \<and> str_count (str_upper text) (drop 3 p) = 0
              \<and> set banks \<inter> set (map fst PAIR_BANKS) = {}" for p
      using that by (rule zero)
    show "is_digest_worthy f e
          = (impact_threshold_digest f \<le> impact_score e
             \<and> set pairs \<inter> set (pairs_allowlist f) \<noteq> {})" if "pair_scores e = ?r"
      using that by (rule dig)
  qed
qed

theorem calculate_pair_scores_keys_witness:
  "u ''EURGBP'' \<in> set [u ''USDJPY'', u ''EURGBP'']
   \<and> \<not> contains (str_upper (u ''usd up'')) (u ''EURGBP'')
   \<and> str_count (str_upper (u ''usd up'')) (take 3 (u ''EURGBP'')) = 0
   \<and> str_count (str_upper (u ''usd up'')) (drop 3 (u ''EURGBP'')) = 0
   \<and> set ([]::ustr list) \<inter> set (map fst PAIR_BANKS) = {}
   \<and> map_of (calculate_pair_scores (u ''usd up'') [u ''USDJPY'', u ''EURGBP''] [u ''USD''] [])
         (u ''EURGBP'') = Some 0
   \<and> map_of (calculate_pair_scores (u ''usd up'') [u ''USDJPY'', u ''EURGBP''] [u ''USD''] [])
         (u ''USDJPY'') = Some 10
   \<and> set (dict_keys (calculate_pair_scores (u ''usd up'') [u ''USDJPY'', u ''EURGBP''] [u ''USD''] []))
       = set [u ''USDJPY'', u ''EURGBP'']
   \<and> is_digest_worthy
         \<lparr>pairs_allowlist = [u ''USDJPY''], impact_threshold_breaking = 60,
          impact_threshold_digest = 40, pair_score_threshold = 50\<rparr>
         \<lparr>article = \<lparr>art_id = [], source = [], url = [], ts = 0, title = u ''usd up'',
                      body = [], lang = u ''en''\<rparr>,
          currencies = [u ''USD''], central_banks = [], category = u ''other'',
          impact_score = 45,
          pair_scores = calculate_pair_scores (u ''usd up'') [u ''USDJPY'', u ''EURGBP'']
                          [u ''USD''] []\<rparr>"
proof -
  let ?t = "u ''usd up''"
  let ?ps = "[u ''USDJPY'', u ''EURGBP'']"
  let ?f = "\<lparr>pairs_allowlist = [u ''USDJPY''], impact_threshold_breaking = 60,
          impact_threshold_digest = 40, pair_score_threshold = 50\<rparr>"
  let ?e = "\<lparr>article = \<lparr>art_id = [], source = [], url = [], ts = 0, title = u ''usd up'',
                      body = [], lang = u ''en''\<rparr>,
          currencies = [u ''USD''], central_banks = [], category = u ''other'',
          impact_score = 45,
          pair_scores = calculate_pair_scores ?t ?ps [u ''USD''] []\<rparr>"
  have m: "u ''EURGBP'' \<in> set ?ps" and m': "u ''USDJPY'' \<in> set ?ps"
    by simp_all
  have h: "\<not> contains (str_upper ?t) (u ''EURGBP'')
     \<and> str_count (str_upper ?t) (take 3 (u ''EURGBP'')) = 0
     \<and> str_count (str_upper ?t) (drop 3 (u ''EURGBP'')) = 0
     \<and> set ([]::ustr list) \<inter> set (map fst PAIR_BANKS) = {}"
    by code_simp
  have s: "pair_score (str_upper ?t) [] (u ''USDJPY'') = 10"
    by code_simp
  have e: "pair_scores ?e = calculate_pair_scores ?t ?ps [u ''USD''] []"
    by simp
  have i: "impact_threshold_digest ?f \<le> impact_score ?e
           \<and> set ?ps \<inter> set (pairs_allowlist ?f) \<noteq> {}"
    by simp
  from calculate_pair_scores_keys [of ?t ?ps "[u ''USD'']" "[]" ?e ?f] m m' h s e i
  show ?thesis
    by (metis (no_types, lifting))
qed

section \<open>The digest filter\<close>

lemma slice_to_take: "\<exists>n. slice_to limit xs = take n xs"
  by (auto simp: slice_to_def)

lemma slice_to_length: "0 \<le> limit \<Longrightarrow> int (length (slice_to limit xs)) \<le> limit"
  by (simp add: slice_to_def)

lemma sort_by_impact_desc_set: "set (sort_by_impact_desc xs) = set xs"
  by (simp add: sort_by_impact_desc_def)

lemma sort_by_impact_desc_sorted:
  "sorted_wrt (\<lambda>x y. impact_score y \<le> impact_score x) (sort_by_impact_desc xs)"
proof -
  have "sorted (map (\<lambda>x. - impact_score x) (sort_by_impact_desc xs))"
    unfolding sort_by_impact_desc_def by (rule sorted_sort_key)
  then have "sorted_wrt (\<lambda>x y. - impact_score x \<le> - impact_score y) (sort_by_impact_desc xs)"
    by (simp add: sorted_map)
  then show ?thesis by simp
qed

text \<open>
  C8: for a limit that is a count (not negative) \<open>filter_for_digest\<close> returns at most
  \<open>limit\<close> items; each returned item is an element of the input that is not excluded
  and is digest-worthy, and the result is sorted in non-increasing order of the impact
  score.
\<close>

theorem filter_for_digest_limit_sorted:
  "(0 \<le> limit \<longrightarrow> int (length (filter_for_digest f as limit)) \<le> limit)
   \<and> (\<forall>a \<in> set (filter_for_digest f as limit).
         a \<in> set as \<and> \<not> should_exclude f a \<and> is_digest_worthy f a)
   \<and> sorted_wrt (\<lambda>x y. impact_score y \<le> impact_score x) (filter_for_digest f as limit)"
proof -
  let ?d = "sort_by_impact_desc (filter (\<lambda>a. \<not> should_exclude f a \<and> is_digest_worthy f a) as)"
  have r: "filter_for_digest f as limit = slice_to limit ?d"
    by (simp add: filter_for_digest_def)
  obtain n where n: "slice_to limit ?d = take n ?d"
    using slice_to_take by blast
  have len: "int (length (filter_for_digest f as limit)) \<le> limit" if "0 \<le> limit"
    unfolding r using that by (rule slice_to_length)
  have mem: "a \<in> set as \<and> \<not> should_exclude f a \<and> is_digest_worthy f a"
    if "a \<in> set (filter_for_digest f as limit)" for a
  proof -
    from that have "a \<in> set ?d" unfolding r n by (rule in_set_takeD)
    then show ?thesis by (simp add: sort_by_impact_desc_set)
  qed
  have srt: "sorted_wrt (\<lambda>x y. impact_score y \<le> impact_score x) (filter_for_digest f as limit)"
    unfolding r n by (rule sorted_wrt_take) (rule sort_by_impact_desc_sorted)
  show ?thesis using len mem srt by blast
qed

theorem filter_for_digest_limit_sorted_witness:
  "(0::int) \<le> 2
   \<and> int (length (filter_for_digest test_filter
                     [sample_enriched 45, sample_enriched 47, sample_enriched 46] 2)) \<le> 2
   \<and> sample_enriched 47 \<in> set (filter_for_digest test_filter
                     [sample_enriched 45, sample_enriched 47, sample_enriched 46] 2)
   \<and> \<not> should_exclude test_filter (sample_enriched 47)
   \<and> is_digest_worthy test_filter (sample_enriched 47)
   \<and> sorted_wrt (\<lambda>x y. impact_score y \<le> impact_score x)
         (filter_for_digest test_filter
            [sample_enriched 45, sample_enriched 47, sample_enriched 46] 2)"
proof -
  let ?as = "[sample_enriched 45, sample_enriched 47, sample_enriched 46]"
  have l: "(0::int) \<le> 2" by simp
  have m: "sample_enriched 47 \<in> set (filter_for_digest test_filter ?as 2)"
    by code_simp
  from filter_for_digest_limit_sorted [of 2 test_filter ?as] l m show ?thesis
    by blast
qed

section \<open>The duplicate checker\<close>

lemma dict_del_absent: "k \<notin> set (dict_keys d) \<Longrightarrow> dict_del d k = d"
proof -
  assume "k \<notin> set (dict_keys d)"
  then have "\<forall>p \<in> set d. (case p of (k', v') \<Rightarrow> k' \<noteq> k)"
    by (force simp: dict_keys_def)
  then show ?thesis
    unfolding dict_del_def by (simp only: filter_id_conv)
qed

lemma purge_key_cache: "cache (purge_key dc k) = filter (\<lambda>p. fst p \<noteq> k) (cache dc)"
  by (simp add: purge_key_def dict_del_def case_prod_unfold)

lemma purge_key_title_cache:
  "title_cache (purge_key dc k) = filter (\<lambda>p. fst p \<noteq> k) (title_cache dc)"
proof (cases "k \<in> set (dict_keys (title_cache dc))")
  case True
  then show ?thesis by (simp add: purge_key_def dict_del_def case_prod_unfold)
next
  case False
  then have "dict_del (title_cache dc) k = title_cache dc" by (rule dict_del_absent)
  then have "filter (\<lambda>p. fst p \<noteq> k) (title_cache dc) = title_cache dc"
    by (simp add: dict_del_def case_prod_unfold)
  with False show ?thesis by (simp add: purge_key_def)
qed

lemma purge_keys_cache:
  "cache (foldl purge_key dc ks) = filter (\<lambda>p. fst p \<notin> set ks) (cache dc)"
proof (induction ks arbitrary: dc)
  case Nil
  show ?case by simp
next
  case (Cons k ks)
  have "cache (foldl purge_key dc (k # ks))
        = filter (\<lambda>p. fst p \<notin> set ks) (filter (\<lambda>p. fst p \<noteq> k) (cache dc))"
    by (simp add: Cons.IH purge_key_cache)
  also have "\<dots> = filter (\<lambda>p. fst p \<notin> set (k # ks)) (cache dc)"
    by (simp add: conj_commute)
  finally show ?case .
qed

lemma purge_keys_title_cache:
  "title_cache (foldl purge_key dc ks) = filter (\<lambda>p. fst p \<notin> set ks) (title_cache dc)"
proof (induction ks arbitrary: dc)
  case Nil
  show ?case by simp
next
  case (Cons k ks)
  have "title_cache (foldl purge_key dc (k # ks))
        = filter (\<lambda>p. fst p \<notin> set ks) (filter (\<lambda>p. fst p \<noteq> k) (title_cache dc))"
    by (simp add: Cons.IH purge_key_title_cache)
  also have "\<dots> = filter (\<lambda>p. fst p \<notin> set (k # ks)) (title_cache dc)"
    by (simp add: conj_commute)
  finally show ?case .
qed

lemma clean_cache_cache:
  "cache (clean_cache now dc) = filter (\<lambda>p. fst p \<notin> set (expired_keys now dc)) (cache dc)"
  by (simp add: clean_cache_def purge_keys_cache)

lemma clean_cache_title_cache:
  "title_cache (clean_cache now dc)
     = filter (\<lambda>p. fst p \<notin> set (expired_keys now dc)) (title_cache dc)"
  by (simp add: clean_cache_def purge_keys_title_cache)

lemma expired_keys_iff:
  "k \<in> set (expired_keys now dc)
     \<longleftrightarrow> (\<exists>timestamp. (k, timestamp) \<in> set (cache dc)
                        \<and> timedelta_hours (ttl_hours dc) < now - timestamp)"
  by (auto simp: expired_keys_def image_iff)

lemma dict_set_mem: "(k, v) \<in> set (dict_set d k v)"
proof (induction d)
  case Nil
  show ?case by simp
next
  case (Cons p d)
  obtain k' v' where p: "p = (k', v')" by (cases p)
  show ?case using Cons.IH by (simp add: p)
qed

lemma distinct_keys_unique:
  "distinct (dict_keys d) \<Longrightarrow> (k, v) \<in> set d \<Longrightarrow> (k, v') \<in> set d \<Longrightarrow> v = v'"
  unfolding dict_keys_def by (rule eq_key_imp_eq_value)


lemma add_cache: "cache (add h now u0 t0 dc) = dict_set (cache dc) (h u0) now"
  by (simp add: add_def Let_def)

lemma add_title_cache: "title_cache (add h now u0 t0 dc) = dict_set (title_cache dc) (h u0) t0"
  by (simp add: add_def Let_def)

lemma add_ttl_hours: "ttl_hours (add h now u0 t0 dc) = ttl_hours dc"
  by (simp add: add_def Let_def)

lemma add_similarity_threshold: "similarity_threshold (add h now u0 t0 dc) = similarity_threshold dc"
  by (simp add: add_def Let_def)

lemma clean_cache_similarity_threshold:
  "similarity_threshold (clean_cache now dc) = similarity_threshold dc"
proof -
  have "similarity_threshold (foldl purge_key dc ks) = similarity_threshold dc" for ks
    by (induction ks arbitrary: dc) (simp_all add: purge_key_def)
  then show ?thesis by (simp add: clean_cache_def)
qed

lemma is_duplicate_fst:
  "fst (is_duplicate h r now u0 t0 dc)
     = (h u0 \<in> set (dict_keys (cache (clean_cache now dc)))
        \<or> is_similar_title r t0 (clean_cache now dc))"
  by (simp add: is_duplicate_def is_duplicate_url_def Let_def)

lemma is_duplicate_snd: "snd (is_duplicate h r now u0 t0 dc) = clean_cache now dc"
  by (simp add: is_duplicate_def is_duplicate_url_def Let_def)

text \<open>An entry that is not yet expired survives the purge.\<close>

lemma fresh_entry_kept:
  assumes d: "distinct (dict_keys (cache dc))"
    and m: "(k, t) \<in> set (cache dc)"
    and fresh: "now - t \<le> timedelta_hours (ttl_hours dc)"
  shows "k \<in> set (dict_keys (cache (clean_cache now dc)))"
proof -
  have "k \<notin> set (expired_keys now dc)"
  proof
    assume "k \<in> set (expired_keys now dc)"
    then obtain t' where t': "(k, t') \<in> set (cache dc)"
      and old: "timedelta_hours (ttl_hours dc) < now - t'"
      unfolding expired_keys_iff by blast
    from d t' m have "t' = t" by (rule distinct_keys_unique)
    with old fresh show False by simp
  qed
  with m have "(k, t) \<in> set (cache (clean_cache now dc))"
    by (simp add: clean_cache_cache)
  then show ?thesis unfolding dict_keys_def by force
qed

text \<open>An expired entry is gone from both dictionaries after the purge.\<close>

lemma expired_entry_purged:
  assumes m: "(k, t) \<in> set (cache dc)"
    and old: "timedelta_hours (ttl_hours dc) < now - t"
  shows "k \<notin> set (dict_keys (cache (clean_cache now dc)))"
    and "k \<notin> set (dict_keys (title_cache (clean_cache now dc)))"
proof -
  from m old have "k \<in> set (expired_keys now dc)"
    unfolding expired_keys_iff by blast
  then show "k \<notin> set (dict_keys (cache (clean_cache now dc)))"
    and "k \<notin> set (dict_keys (title_cache (clean_cache now dc)))"
    by (auto simp: clean_cache_cache clean_cache_title_cache dict_keys_def)
qed

text \<open>
  C9: let \<open>add\<close> record the article at time \<open>t\<close> in a checker whose cache has distinct
  keys (every Python dictionary has), and let \<open>is_duplicate\<close> for the same URL and title
  read the clock at \<open>t'\<close>. While no more than the retention window has elapsed
  (in particular immediately, \<open>t' = t\<close>, for a window that is not negative) the answer
  is true. Once strictly more has elapsed, the purge that runs before the test removes
  the entry from both dictionaries, and the answer is false when no retained title is
  similar to the title.
\<close>

theorem add_then_is_duplicate:
  assumes "distinct (dict_keys (cache dc))"
  shows "(t' - t \<le> timedelta_hours (ttl_hours dc)
            \<longrightarrow> fst (is_duplicate h r t' u0 t0 (add h t u0 t0 dc)))
       \<and> (timedelta_hours (ttl_hours dc) < t' - t
            \<longrightarrow> h u0 \<notin> set (dict_keys (cache (snd (is_duplicate h r t' u0 t0 (add h t u0 t0 dc)))))
              \<and> h u0 \<notin> set (dict_keys (title_cache (snd (is_duplicate h r t' u0 t0 (add h t u0 t0 dc))))))
       \<and> (timedelta_hours (ttl_hours dc) < t' - t
           \<and> (\<forall>c \<in> set (dict_values (title_cache (clean_cache t' (add h t u0 t0 dc)))).
                 r (str_lower t0) (str_lower c) < similarity_threshold dc)
            \<longrightarrow> \<not> fst (is_duplicate h r t' u0 t0 (add h t u0 t0 dc)))"
proof -
  let ?dc = "add h t u0 t0 dc"
  have d: "distinct (dict_keys (cache ?dc))"
    using assms by (simp add: add_cache dict_set_distinct)
  have m: "(h u0, t) \<in> set (cache ?dc)"
    by (simp add: add_cache dict_set_mem)
  have ttl: "ttl_hours ?dc = ttl_hours dc"
    by (rule add_ttl_hours)
  have p1: "fst (is_duplicate h r t' u0 t0 ?dc)" if "t' - t \<le> timedelta_hours (ttl_hours dc)"
  proof -
    from that have "t' - t \<le> timedelta_hours (ttl_hours ?dc)" by (simp add: ttl)
    with d m have "h u0 \<in> set (dict_keys (cache (clean_cache t' ?dc)))"
      by (rule fresh_entry_kept)
    then show ?thesis by (simp add: is_duplicate_fst)
  qed
  have p2: "h u0 \<notin> set (dict_keys (cache (snd (is_duplicate h r t' u0 t0 ?dc))))
            \<and> h u0 \<notin> set (dict_keys (title_cache (snd (is_duplicate h r t' u0 t0 ?dc))))"
    if "timedelta_hours (ttl_hours dc) < t' - t"
  proof -
    from that have old: "timedelta_hours (ttl_hours ?dc) < t' - t" by (simp add: ttl)
    show ?thesis
      unfolding is_duplicate_snd
      using expired_entry_purged [OF m old] by simp
  qed
  have p3: "\<not> fst (is_duplicate h r t' u0 t0 ?dc)"
    if old: "timedelta_hours (ttl_hours dc) < t' - t"
      and sim: "\<forall>c \<in> set (dict_values (title_cache (clean_cache t' ?dc))).
                 r (str_lower t0) (str_lower c) < similarity_threshold dc"
  proof -
    from p2 [OF old] have "h u0 \<notin> set (dict_keys (cache (clean_cache t' ?dc)))"
      by (simp add: is_duplicate_snd)
    moreover have "\<not> is_similar_title r t0 (clean_cache t' ?dc)"
      using sim
      by (auto simp: is_similar_title_def list_ex_iff clean_cache_similarity_threshold
            add_similarity_threshold)
    ultimately show ?thesis by (simp add: is_duplicate_fst)
  qed
  show ?thesis using p1 p2 p3 by blast
qed

theorem add_then_is_duplicate_witness:
  "fst (is_duplicate id exact_ratio 0 (url sample_article) (title sample_article)
          (add id 0 (url sample_article) (title sample_article) (new_duplicate_checker 24 85)))
   \<and> \<not> fst (is_duplicate id exact_ratio 86400000001 (url sample_article) (title sample_article)
          (add id 0 (url sample_article) (title sample_article)
             (add id 7200000000 (u ''https://example.com/other'') (u ''Other news'')
                (new_duplicate_checker 24 85))))"
proof -
  let ?u = "url sample_article" and ?t = "title sample_article"
  let ?dc0 = "new_duplicate_checker 24 85"
  let ?dc1 = "add id 7200000000 (u ''https://example.com/other'') (u ''Other news'') ?dc0"
  have d0: "distinct (dict_keys (cache ?dc0))"
    by (simp add: new_duplicate_checker_def dict_keys_def)
  have d1: "distinct (dict_keys (cache ?dc1))"
    by (simp add: new_duplicate_checker_def dict_keys_def add_def Let_def)
  have fresh: "(0::int) - 0 \<le> timedelta_hours (ttl_hours ?dc0)"
    by (simp add: new_duplicate_checker_def timedelta_hours_def)
  have old: "timedelta_hours (ttl_hours ?dc1) < 86400000001 - 0"
    by (simp add: new_duplicate_checker_def timedelta_hours_def add_def Let_def)
  have tc: "dict_values (title_cache (clean_cache 86400000001 (add id 0 ?u ?t ?dc1)))
            = [u ''Other news'']"
    by code_simp
  have ne: "str_lower ?t \<noteq> str_lower (u ''Other news'')"
    by code_simp
  have sim: "\<forall>c \<in> set (dict_values (title_cache (clean_cache 86400000001 (add id 0 ?u ?t ?dc1)))).
               exact_ratio (str_lower ?t) (str_lower c) < similarity_threshold ?dc1"
    unfolding tc using ne
    by (simp add: exact_ratio_def new_duplicate_checker_def add_def Let_def)
  from add_then_is_duplicate [of ?dc0 0 0 id exact_ratio ?u ?t] d0 fresh
  have a: "fst (is_duplicate id exact_ratio 0 ?u ?t (add id 0 ?u ?t ?dc0))"
    by blast
  from add_then_is_duplicate [of ?dc1 86400000001 0 id exact_ratio ?u ?t] d1 old sim
  have b: "\<not> fst (is_duplicate id exact_ratio 86400000001 ?u ?t (add id 0 ?u ?t ?dc1))"
    by blast
  from a b show ?thesis by blast
qed

text \<open>
  C7, as the code has it: \<open>add\<close> for a URL that is already in the cache keeps the keys
  of the cache and their order, and overwrites the entry: its timestamp becomes the
  time of this call and its title the new title; the settings are unchanged.
\<close>

theorem add_overwrites_entry:
  assumes "h u0 \<in> set (dict_keys (cache dc))"
  shows "dict_keys (cache (add h now u0 t0 dc)) = dict_keys (cache dc)
       \<and> map_of (cache (add h now u0 t0 dc)) = (map_of (cache dc))(h u0 \<mapsto> now)
       \<and> map_of (title_cache (add h now u0 t0 dc)) = (map_of (title_cache dc))(h u0 \<mapsto> t0)
       \<and> ttl_hours (add h now u0 t0 dc) = ttl_hours dc
       \<and> similarity_threshold (add h now u0 t0 dc) = similarity_threshold dc"
  using assms
  by (simp add: add_cache add_title_cache add_ttl_hours add_similarity_threshold
        dict_set_keys_present map_of_dict_set)

theorem add_overwrites_entry_witness:
  "id (url sample_article)
     \<in> set (dict_keys (cache (add id 0 (url sample_article) (title sample_article)
                                 (new_duplicate_checker 24 85))))
   \<and> map_of (cache (add id 7200000000 (url sample_article) (title sample_article)
                       (add id 0 (url sample_article) (title sample_article)
                          (new_duplicate_checker 24 85))))
       = (map_of (cache (add id 0 (url sample_article) (title sample_article)
                           (new_duplicate_checker 24 85))))
         (id (url sample_article) \<mapsto> 7200000000)"
proof -
  let ?dc = "add id 0 (url sample_article) (title sample_article) (new_duplicate_checker 24 85)"
  have h: "id (url sample_article) \<in> set (dict_keys (cache ?dc))"
    by (simp add: add_def Let_def new_duplicate_checker_def dict_keys_def)
  from add_overwrites_entry [of id "url sample_article" ?dc 7200000000 "title sample_article"] h
  show ?thesis
    by blast
qed

text \<open>
  C7 as stated fails: a second \<open>add\<close> two hours after the first changes the cache,
  the recorded time of the entry moves from 0 to the time of the second call.
\<close>

theorem add_twice_counterexample:
  "cache (add id 7200000000 (url sample_article) (title sample_article)
            (add id 0 (url sample_article) (title sample_article) (new_duplicate_checker 24 85)))
   \<noteq> cache (add id 0 (url sample_article) (title sample_article) (new_duplicate_checker 24 85))"
  by (simp add: add_def Let_def new_duplicate_checker_def)

section \<open>The scenario of the emergency rate hike\<close>

text \<open>
  C4, as the code has it: for the text "Fed surprises with emergency rate hike"
  \<open>categorize_event\<close> returns "other", because the text holds none of the category
  keywords ("rate hike" is not one of them); \<open>extract_currencies\<close> returns USD only and
  \<open>extract_central_banks\<close> FED only. With the category "policy_rate" passed in, as the
  test suite does, the impact score is 100, which is at least 80; with the category that
  \<open>categorize_event\<close> computes it is 40.
\<close>

theorem fed_scenario:
  "categorize_event (u ''Fed surprises with emergency rate hike'') = u ''other''
   \<and> extract_currencies (u ''Fed surprises with emergency rate hike'') = [u ''USD'']
   \<and> extract_central_banks (u ''Fed surprises with emergency rate hike'') = [u ''FED'']
   \<and> calculate_impact_score (u ''Fed surprises with emergency rate hike'') (u ''policy_rate'')
        [u ''USD''] [u ''FED''] = 100
   \<and> calculate_impact_score (u ''Fed surprises with emergency rate hike'') (u ''other'')
        [u ''USD''] [u ''FED''] = 40"
  by code_simp

text \<open>C4 as stated fails: the category of the text is not "policy_rate".\<close>

theorem fed_scenario_category_counterexample:
  "categorize_event (u ''Fed surprises with emergency rate hike'') \<noteq> u ''policy_rate''"
  by code_simp

section \<open>Central banks in a text\<close>

lemma central_bank_names_nonempty: "[] \<notin> set (map fst CENTRAL_BANKS)"
  by code_simp

text \<open>
  C6, as the code has it: \<open>extract_central_banks\<close> returns, sorted and without
  duplicates, exactly the names of the bank table that occur anywhere in the upper-cased
  text, inside a longer word or not. The names are the keys of the table as they are
  (FED, FRB and FOMC are three of them).
\<close>

theorem extract_central_banks_substring:
  "set (extract_central_banks t)
     = {bank \<in> set (map fst CENTRAL_BANKS). contains (str_upper t) bank}
   \<and> sorted (extract_central_banks t) \<and> distinct (extract_central_banks t)"
proof (cases "t = []")
  case True
  have "\<not> contains (str_upper []) bank" if "bank \<in> set (map fst CENTRAL_BANKS)" for bank
  proof -
    from that central_bank_names_nonempty have "bank \<noteq> []" by metis
    then show ?thesis by (simp add: contains_def str_upper_def)
  qed
  then have "{bank \<in> set (map fst CENTRAL_BANKS). contains (str_upper []) bank} = {}"
    by blast
  with True show ?thesis by (simp add: extract_central_banks_def)
next
  case False
  then have "extract_central_banks t
      = sort (remdups (filter (\<lambda>bank. contains (str_upper t) bank) (map fst CENTRAL_BANKS)))"
    by (simp add: extract_central_banks_def)
  then show ?thesis by auto
qed

text \<open>
  C6 as stated fails: in "federal budget" the name FED occurs only inside the word
  "federal", not as a whole word, and is returned.
\<close>

theorem central_bank_inside_word_counterexample:
  "extract_central_banks (u ''federal budget'') = [u ''FED'']
   \<and> \<not> occurs_as_whole_word (u ''FED'') (u ''federal budget'')"
  by code_simp

section \<open>Keyword counting\<close>

lemma sublist_separated:
  assumes "c \<notin> set k"
  shows "sublist k (a @ c # b) \<longleftrightarrow> sublist k a \<or> sublist k b"
proof
  assume "sublist k (a @ c # b)"
  then consider "sublist k a" | "sublist k (c # b)"
    | xs1 xs2 where "k = xs1 @ xs2" "suffix xs1 a" "prefix xs2 (c # b)"
    unfolding sublist_append by blast
  then show "sublist k a \<or> sublist k b"
  proof cases
    case 1
    then show ?thesis by simp
  next
    case 2
    then have "prefix k (c # b) \<or> sublist k b" by (simp add: sublist_Cons_right)
    moreover have "k = []" if "prefix k (c # b)"
      using that assms by (cases k) auto
    ultimately show ?thesis by auto
  next
    case 3
    have "xs2 = []"
      using 3(1,3) assms by (cases xs2) auto
    with 3 have "suffix k a" by simp
    then show ?thesis by (auto simp: suffix_imp_sublist)
  qed
next
  assume "sublist k a \<or> sublist k b"
  then show "sublist k (a @ c # b)"
  proof
    assume "sublist k a"
    then show ?thesis by (simp add: sublist_append)
  next
    assume "sublist k b"
    then have "sublist k (c # b)" by (simp add: sublist_Cons_right)
    then show ?thesis by (simp add: sublist_append)
  qed
qed

lemma keyword_hits_separated:
  assumes "\<forall>k \<in> set kws. c \<notin> set k"
  shows "keyword_hits (a @ c # b) kws
         = int (length (filter (\<lambda>k. contains a k \<or> contains b k) kws))"
proof -
  have "filter (\<lambda>k. contains (a @ c # b) k) kws = filter (\<lambda>k. contains a k \<or> contains b k) kws"
    by (rule filter_cong) (use assms in \<open>auto simp: contains_def sublist_separated\<close>)
  then show ?thesis by (simp add: keyword_hits_def)
qed

lemma filter_or_le: "length (filter P xs) \<le> length (filter (\<lambda>x. P x \<or> Q x) xs)"
  by (induction xs) auto

lemma filter_or_absorb:
  "\<forall>x \<in> set xs. Q x \<longrightarrow> P x \<Longrightarrow> filter (\<lambda>x. P x \<or> Q x) xs = filter P xs"
  by (rule filter_cong) auto

lemma filter_or_gain:
  "y \<in> set xs \<Longrightarrow> Q y \<Longrightarrow> \<not> P y \<Longrightarrow> length (filter P xs) < length (filter (\<lambda>x. P x \<or> Q x) xs)"
proof (induction xs)
  case Nil
  then show ?case by simp
next
  case (Cons x xs)
  show ?case
  proof (cases "x = y")
    case True
    with Cons.prems show ?thesis
      using filter_or_le [of P xs Q] by simp
  next
    case False
    with Cons have "length (filter P xs) < length (filter (\<lambda>x. P x \<or> Q x) xs)" by simp
    then show ?thesis by simp
  qed
qed

lemma filter_or_one:
  assumes "distinct xs" and "\<forall>x \<in> set xs. Q x \<longrightarrow> x = y"
  shows "length (filter (\<lambda>x. P x \<or> Q x) xs) \<le> length (filter P xs) + 1"
  using assms
proof (induction xs)
  case Nil
  show ?case by simp
next
  case (Cons x xs)
  from Cons.prems have dist: "distinct xs" and notin: "x \<notin> set xs"
    by simp_all
  from Cons.prems(2) have only: "\<forall>z \<in> set xs. Q z \<longrightarrow> z = y" and head: "Q x \<longrightarrow> x = y"
    by (blast intro: list.set_intros)+
  show ?case
  proof (cases "Q x \<and> \<not> P x")
    case True
    with head have "x = y" by blast
    with only notin have "\<forall>z \<in> set xs. Q z \<longrightarrow> P z" by blast
    then have "filter (\<lambda>x. P x \<or> Q x) xs = filter P xs" by (rule filter_or_absorb)
    with True show ?thesis by simp
  next
    case False
    have "length (filter (\<lambda>x. P x \<or> Q x) xs) \<le> length (filter P xs) + 1"
      using dist only by (rule Cons.IH)
    with False show ?thesis by auto
  qed
qed


section \<open>The keyword tables\<close>

lemma keywords_no_space:
  "\<forall>k \<in> set HIGH_IMPACT_KEYWORDS. 32 \<notin> set k" "\<forall>k \<in> set LOW_IMPACT_KEYWORDS. 32 \<notin> set k"
proof -
  have "list_all (\<lambda>k. 32 \<notin> set k) HIGH_IMPACT_KEYWORDS" by code_simp
  then show "\<forall>k \<in> set HIGH_IMPACT_KEYWORDS. 32 \<notin> set k" by (simp only: list_all_iff)
  have "list_all (\<lambda>k. 32 \<notin> set k) LOW_IMPACT_KEYWORDS" by code_simp
  then show "\<forall>k \<in> set LOW_IMPACT_KEYWORDS. 32 \<notin> set k" by (simp only: list_all_iff)
qed

lemma keywords_lower_case:
  "\<forall>k \<in> set HIGH_IMPACT_KEYWORDS. str_lower k = k" "\<forall>k \<in> set LOW_IMPACT_KEYWORDS. str_lower k = k"
proof -
  have "list_all (\<lambda>k. str_lower k = k) HIGH_IMPACT_KEYWORDS" by code_simp
  then show "\<forall>k \<in> set HIGH_IMPACT_KEYWORDS. str_lower k = k" by (simp only: list_all_iff)
  have "list_all (\<lambda>k. str_lower k = k) LOW_IMPACT_KEYWORDS" by code_simp
  then show "\<forall>k \<in> set LOW_IMPACT_KEYWORDS. str_lower k = k" by (simp only: list_all_iff)
qed

text \<open>The only low-impact keyword inside a high-impact keyword: expected, in unexpected.\<close>

lemma low_inside_high:
  "\<forall>K \<in> set HIGH_IMPACT_KEYWORDS. \<forall>l \<in> set LOW_IMPACT_KEYWORDS.
     contains K l \<longrightarrow> K = u ''unexpected'' \<and> l = u ''expected''"
proof -
  have "list_all (\<lambda>K. list_all (\<lambda>l. contains K l \<longrightarrow> K = u ''unexpected'' \<and> l = u ''expected'')
                          LOW_IMPACT_KEYWORDS) HIGH_IMPACT_KEYWORDS"
    by code_simp
  then show ?thesis by (simp only: list_all_iff)
qed

text \<open>No high-impact keyword lies inside a low-impact keyword.\<close>

lemma high_inside_low:
  "\<forall>L \<in> set LOW_IMPACT_KEYWORDS. \<forall>k \<in> set HIGH_IMPACT_KEYWORDS. \<not> contains L k"
proof -
  have "list_all (\<lambda>L. list_all (\<lambda>k. \<not> contains L k) HIGH_IMPACT_KEYWORDS) LOW_IMPACT_KEYWORDS"
    by code_simp
  then show ?thesis by (simp only: list_all_iff)
qed

lemma low_keywords_distinct: "distinct LOW_IMPACT_KEYWORDS"
  by code_simp

lemma expected_in_unexpected: "contains (u ''unexpected'') (u ''expected'')"
  by code_simp

lemma contains_refl: "contains k k"
  by (simp add: contains_def)

lemma contains_trans: "contains a b \<Longrightarrow> contains b c \<Longrightarrow> contains a c"
  unfolding contains_def by (rule sublist_order.order.trans)

lemma str_lower_append_keyword:
  "str_lower k = k \<Longrightarrow> str_lower (t @ u '' '' @ k) = str_lower t @ 32 # k"
  by (simp add: str_lower_def u_def lower_cp_def)

section \<open>Impact score\<close>

lemma impact_score_offset:
  "\<exists>b. \<forall>t. calculate_impact_score t c cs bs
            = max 0 (min 100 (b + keyword_hits (str_lower t) HIGH_IMPACT_KEYWORDS * 10
                                - keyword_hits (str_lower t) LOW_IMPACT_KEYWORDS * 5))"
proof -
  let ?base = "case map_of CATEGORY_WEIGHTS c of Some w \<Rightarrow> w | None \<Rightarrow> 20"
  let ?b = "?base + (if length cs \<ge> 3 then 10 else 0) + (if length bs \<ge> 2 then 15 else 0)"
  have "\<forall>t. calculate_impact_score t c cs bs
            = max 0 (min 100 (?b + keyword_hits (str_lower t) HIGH_IMPACT_KEYWORDS * 10
                                - keyword_hits (str_lower t) LOW_IMPACT_KEYWORDS * 5))"
    by (simp add: calculate_impact_score_def Let_def algebra_simps)
  then show ?thesis by blast
qed

lemma impact_score_range:
  "0 \<le> calculate_impact_score t c cs bs \<and> calculate_impact_score t c cs bs \<le> 100"
  by (simp add: calculate_impact_score_def Let_def)

text \<open>A high-impact keyword after a space: ten points per new hit outweigh the penalty.\<close>

lemma high_keyword_delta:
  assumes K: "K \<in> set HIGH_IMPACT_KEYWORDS"
  shows "keyword_hits a HIGH_IMPACT_KEYWORDS * 10 - keyword_hits a LOW_IMPACT_KEYWORDS * 5
         \<le> keyword_hits (a @ 32 # K) HIGH_IMPACT_KEYWORDS * 10
            - keyword_hits (a @ 32 # K) LOW_IMPACT_KEYWORDS * 5"
proof -
  let ?H = HIGH_IMPACT_KEYWORDS and ?L = LOW_IMPACT_KEYWORDS
  let ?h = "length (filter (\<lambda>k. contains a k) ?H)"
  let ?h' = "length (filter (\<lambda>k. contains a k \<or> contains K k) ?H)"
  let ?l = "length (filter (\<lambda>k. contains a k) ?L)"
  let ?l' = "length (filter (\<lambda>k. contains a k \<or> contains K k) ?L)"
  have eqs: "keyword_hits a ?H = int ?h" "keyword_hits a ?L = int ?l"
    "keyword_hits (a @ 32 # K) ?H = int ?h'" "keyword_hits (a @ 32 # K) ?L = int ?l'"
    by (simp_all only: keyword_hits_def [of a] keyword_hits_separated [OF keywords_no_space(1)]
          keyword_hits_separated [OF keywords_no_space(2)])
  have mono: "?h \<le> ?h'" by (rule filter_or_le)
  have only: "\<forall>l \<in> set ?L. contains K l \<longrightarrow> l = u ''expected''"
    using low_inside_high K by blast
  have "int ?h * 10 - int ?l * 5 \<le> int ?h' * 10 - int ?l' * 5"
  proof (cases "\<forall>l \<in> set ?L. contains K l \<longrightarrow> contains a l")
    case True
    then have "filter (\<lambda>k. contains a k \<or> contains K k) ?L = filter (\<lambda>k. contains a k) ?L"
      by (rule filter_or_absorb)
    then have "?l' = ?l" by simp
    with mono show ?thesis by simp
  next
    case False
    then obtain l where l: "l \<in> set ?L" "contains K l" "\<not> contains a l" by blast
    with low_inside_high K have Ku: "K = u ''unexpected''" and le: "l = u ''expected''"
      by blast+
    have "\<not> contains a K"
    proof
      assume "contains a K"
      then have "contains a l"
        unfolding Ku le using expected_in_unexpected by (rule contains_trans)
      with l show False by blast
    qed
    with K have "?h < ?h'"
      by (intro filter_or_gain [of K]) (simp_all add: contains_refl)
    moreover have "?l' \<le> ?l + 1"
      using low_keywords_distinct only by (rule filter_or_one)
    ultimately show ?thesis by linarith
  qed
  then show ?thesis by (simp only: eqs)
qed

text \<open>A low-impact keyword after a space adds no high-impact hit.\<close>

lemma low_keyword_delta:
  assumes L: "L \<in> set LOW_IMPACT_KEYWORDS"
  shows "keyword_hits (a @ 32 # L) HIGH_IMPACT_KEYWORDS * 10
            - keyword_hits (a @ 32 # L) LOW_IMPACT_KEYWORDS * 5
         \<le> keyword_hits a HIGH_IMPACT_KEYWORDS * 10 - keyword_hits a LOW_IMPACT_KEYWORDS * 5"
proof -
  let ?H = HIGH_IMPACT_KEYWORDS and ?L = LOW_IMPACT_KEYWORDS
  let ?h = "length (filter (\<lambda>k. contains a k) ?H)"
  let ?h' = "length (filter (\<lambda>k. contains a k \<or> contains L k) ?H)"
  let ?l = "length (filter (\<lambda>k. contains a k) ?L)"
  let ?l' = "length (filter (\<lambda>k. contains a k \<or> contains L k) ?L)"
  have eqs: "keyword_hits a ?H = int ?h" "keyword_hits a ?L = int ?l"
    "keyword_hits (a @ 32 # L) ?H = int ?h'" "keyword_hits (a @ 32 # L) ?L = int ?l'"
    by (simp_all only: keyword_hits_def [of a] keyword_hits_separated [OF keywords_no_space(1)]
          keyword_hits_separated [OF keywords_no_space(2)])
  have mono: "?l \<le> ?l'" by (rule filter_or_le)
  have "\<forall>k \<in> set ?H. contains L k \<longrightarrow> contains a k"
    using high_inside_low L by blast
  then have "filter (\<lambda>k. contains a k \<or> contains L k) ?H = filter (\<lambda>k. contains a k) ?H"
    by (rule filter_or_absorb)
  then have "?h' = ?h" by simp
  with mono have "int ?h' * 10 - int ?l' * 5 \<le> int ?h * 10 - int ?l * 5" by simp
  then show ?thesis by (simp only: eqs)
qed

text \<open>
  C5, as the code has it: the impact score lies between 0 and 100; appending a
  high-impact keyword as a word of its own (after a space) never decreases the score, and
  appending a low-impact keyword as a word of its own never increases it.
\<close>

theorem impact_score_range_and_keywords:
  "0 \<le> calculate_impact_score t c cs bs \<and> calculate_impact_score t c cs bs \<le> 100
   \<and> (K \<in> set HIGH_IMPACT_KEYWORDS \<longrightarrow>
        calculate_impact_score t c cs bs \<le> calculate_impact_score (t @ u '' '' @ K) c cs bs)
   \<and> (L \<in> set LOW_IMPACT_KEYWORDS \<longrightarrow>
        calculate_impact_score (t @ u '' '' @ L) c cs bs \<le> calculate_impact_score t c cs bs)"
proof -
  obtain b where b: "\<And>x. calculate_impact_score x c cs bs
            = max 0 (min 100 (b + keyword_hits (str_lower x) HIGH_IMPACT_KEYWORDS * 10
                                - keyword_hits (str_lower x) LOW_IMPACT_KEYWORDS * 5))"
    using impact_score_offset [of c cs bs] by blast
  have hi: "calculate_impact_score t c cs bs \<le> calculate_impact_score (t @ u '' '' @ K) c cs bs"
    if K: "K \<in> set HIGH_IMPACT_KEYWORDS"
  proof -
    from K have "str_lower K = K" using keywords_lower_case by blast
    then have low: "str_lower (t @ u '' '' @ K) = str_lower t @ 32 # K"
      by (rule str_lower_append_keyword)
    show ?thesis
      unfolding b low using high_keyword_delta [OF K, of "str_lower t"] by simp
  qed
  have lo: "calculate_impact_score (t @ u '' '' @ L) c cs bs \<le> calculate_impact_score t c cs bs"
    if L: "L \<in> set LOW_IMPACT_KEYWORDS"
  proof -
    from L have "str_lower L = L" using keywords_lower_case by blast
    then have low: "str_lower (t @ u '' '' @ L) = str_lower t @ 32 # L"
      by (rule str_lower_append_keyword)
    show ?thesis
      unfolding b low using low_keyword_delta [OF L, of "str_lower t"] by simp
  qed
  show ?thesis using impact_score_range [of t c cs bs] hi lo by blast
qed

theorem impact_score_range_and_keywords_witness:
  "u ''surprise'' \<in> set HIGH_IMPACT_KEYWORDS
   \<and> u ''expected'' \<in> set LOW_IMPACT_KEYWORDS
   \<and> calculate_impact_score (u ''Fed raises rates'') (u ''other'') [u ''USD''] [u ''FED'']
       \<le> calculate_impact_score (u ''Fed raises rates'' @ u '' '' @ u ''surprise'') (u ''other'')
            [u ''USD''] [u ''FED'']
   \<and> calculate_impact_score (u ''Fed raises rates'' @ u '' '' @ u ''expected'') (u ''other'')
            [u ''USD''] [u ''FED'']
       \<le> calculate_impact_score (u ''Fed raises rates'') (u ''other'') [u ''USD''] [u ''FED'']
   \<and> calculate_impact_score (u ''Fed raises rates'' @ u '' '' @ u ''surprise'') (u ''other'')
            [u ''USD''] [u ''FED''] = 30"
proof -
  have h: "u ''surprise'' \<in> set HIGH_IMPACT_KEYWORDS" by code_simp
  have l: "u ''expected'' \<in> set LOW_IMPACT_KEYWORDS" by code_simp
  have v: "calculate_impact_score (u ''Fed raises rates'' @ u '' '' @ u ''surprise'') (u ''other'')
            [u ''USD''] [u ''FED''] = 30"
    by code_simp
  from impact_score_range_and_keywords
         [of "u ''Fed raises rates''" "u ''other''" "[u ''USD'']" "[u ''FED'']"
             "u ''surprise''" "u ''expected''"] h l v
  show ?thesis by blast
qed

text \<open>
  C5 as stated fails when the keyword is glued to the text: "emergency inlin" followed
  by "emergency" reads "inline" across the seam, a low-impact keyword, and the score
  drops from 30 to 25; "the move was un" followed by "expected" reads "unexpected", a
  high-impact keyword, and the score rises from 20 to 25.
\<close>

theorem impact_score_glued_keyword_counterexample:
  "u ''emergency'' \<in> set HIGH_IMPACT_KEYWORDS
   \<and> calculate_impact_score (u ''emergency inlin'' @ u ''emergency'') (u ''other'') [] []
       < calculate_impact_score (u ''emergency inlin'') (u ''other'') [] []
   \<and> u ''expected'' \<in> set LOW_IMPACT_KEYWORDS
   \<and> calculate_impact_score (u ''the move was un'') (u ''other'') [] []
       < calculate_impact_score (u ''the move was un'' @ u ''expected'') (u ''other'') [] []"
  by code_simp

section \<open>The checker on a string and on a URL object\<close>

lemma is_duplicate_of_Str:
  "is_duplicate_of h r now (Str s) t0 dc
     = (Inr (fst (is_duplicate h r now s t0 dc)), snd (is_duplicate h r now s t0 dc))"
  by (simp add: is_duplicate_of_def get_url_hash_of_def is_duplicate_def is_duplicate_url_def
        Let_def)

lemma add_of_Str: "add_of h now (Str s) t0 dc = Inr (add h now s t0 dc)"
  by (simp add: add_of_def get_url_hash_of_def add_def Let_def)


lemma add_of_UrlObject: "add_of h now (UrlObject s) t0 dc = Inl AttributeError"
  by (simp add: add_of_def get_url_hash_of_def)


section \<open>The jobs on the articles of the collector\<close>






section \<open>The exclusion rule\<close>

lemma minor_currency_no_pairs:
  assumes "c \<in> set excluded_currencies"
  shows "pairs_of_currency cs c = []"
proof -
  have "list_all (\<lambda>c. c \<noteq> u ''USD'' \<and> c \<notin> set major_bases \<and> c \<noteq> u ''JPY'') excluded_currencies"
    by code_simp
  then have "\<forall>x \<in> set excluded_currencies.
                x \<noteq> u ''USD'' \<and> x \<notin> set major_bases \<and> x \<noteq> u ''JPY''"
    by (simp only: list_all_iff)
  with assms have "c \<noteq> u ''USD'' \<and> c \<notin> set major_bases \<and> c \<noteq> u ''JPY''"
    by blast
  then show ?thesis by (simp add: pairs_of_currency_def)
qed

lemma minor_currencies_no_pairs:
  assumes "\<forall>c \<in> set cs. c \<in> set excluded_currencies"
  shows "extract_currency_pairs cs = []"
proof -
  have c: "concat (map (pairs_of_currency cs) cs) = []"
    using assms by (simp add: minor_currency_no_pairs)
  show ?thesis
    unfolding extract_currency_pairs_def c by simp
qed

lemma enrich_article_fields:
  assumes "enrich_article env a = Some e"
  shows "\<exists>text. currencies e = extract_currencies text
           \<and> pair_scores e = calculate_pair_scores text (extract_currency_pairs (currencies e))
                                (currencies e) (central_banks e)"
  using assms
  by (auto simp: enrich_article_def Let_def split: option.splits if_splits)

text \<open>
  With both impact thresholds at 20 or more, an article that \<open>_enrich_article\<close>
  produced and \<open>should_exclude\<close> excludes is neither breaking nor digest-worthy.
\<close>

lemma excluded_not_selected_from_20:
  assumes e: "enrich_article env a = Some e"
    and ex: "should_exclude f e"
    and b: "20 \<le> impact_threshold_breaking f" and d: "20 \<le> impact_threshold_digest f"
  shows "\<not> is_breaking_news f e \<and> \<not> is_digest_worthy f e"
proof (cases "impact_score e < 20")
  case True
  with b d show ?thesis by (simp add: is_breaking_news_def is_digest_worthy_def)
next
  case False
  with ex have "filter (\<lambda>c. c \<notin> set excluded_currencies) (remdups (currencies e)) = []"
    by (simp add: should_exclude_def split: if_splits)
  then have "\<forall>c \<in> set (currencies e). c \<in> set excluded_currencies"
    by (simp add: filter_empty_conv)
  then have "extract_currency_pairs (currencies e) = []"
    by (rule minor_currencies_no_pairs)
  moreover from e obtain tx where
    "pair_scores e = calculate_pair_scores tx (extract_currency_pairs (currencies e))
                       (currencies e) (central_banks e)"
    using enrich_article_fields by blast
  ultimately have "pair_scores e = []"
    by (simp add: calculate_pair_scores_def)
  then show ?thesis
    by (simp add: is_breaking_news_def is_digest_worthy_def dict_keys_def)
qed



end
